theory Spec2Isabelle
  imports Main
begin

section \<open>The shared board: data model\<close>

text \<open>
  The Authority (the Socket.IO handlers of \<^verbatim>\<open>server.mjs\<close>) owns one \<^verbatim>\<open>boardState\<close>
  object with the fields \<^verbatim>\<open>lanes\<close>, \<^verbatim>\<open>items\<close> and \<^verbatim>\<open>lastUpdated\<close>; every Replica
  (\<^verbatim>\<open>useRealtimeSync\<close> in the client) holds a value of the same shape.

  Modelling decisions.
  \<^item> A JavaScript object is the map of its own enumerable properties together with
    its prototype. Every object the handlers build or receive has \<^verbatim>\<open>Object.prototype\<close>
    as its prototype, with one exception: the assignment \<^verbatim>\<open>items['__proto__'] = v\<close> can
    run the inherited setter and make \<open>v\<close> the prototype of the \<^verbatim>\<open>items\<close> object. The
    state therefore records the prototype of \<^verbatim>\<open>items\<close> (field \<open>itemsProto\<close>, \<open>None\<close> for
    \<^verbatim>\<open>Object.prototype\<close>), and a lookup \<^verbatim>\<open>items[k]\<close> walks the chain.
  \<^item> Ids and lane names are strings, as the client's types \<^verbatim>\<open>BoardItem.id\<close> and
    \<^verbatim>\<open>LaneKey\<close> declare them. The empty string is falsy; an absent id or lane behaves
    like the empty one in every guard below. Every event arrives with a payload
    object, as the client sends it.
  \<^item> An item is the map of its fields, so that a patch may name any field at all.
    A string is the list of its code units.
  \<^item> \<^verbatim>\<open>index\<close> is \<open>None\<close> when \<^verbatim>\<open>typeof index !== 'number'\<close>; \<^verbatim>\<open>mtime\<close> is \<open>None\<close>
    when it is absent. Numbers are integers (\<^verbatim>\<open>splice\<close> truncates its start index).
  \<^item> \<^verbatim>\<open>Date.now()\<close> is the parameter \<open>now\<close> of each handler.
  \<^item> A handler returns the new state together with the message it broadcasts, if any;
    a handler that throws is an error value that carries the state it leaves behind.
\<close>

datatype jsval =
    JNull
  | JBool bool
  | JNum int
  | JStr string
  | JArr "jsval list"
  | JObj "(string \<times> jsval) list"

type_synonym item = "string \<rightharpoonup> jsval"

type_synonym patch = "string \<rightharpoonup> jsval"

record board_state =
  lanes :: "string \<rightharpoonup> string list"
  items :: "string \<rightharpoonup> item"
  lastUpdated :: int
  itemsProto :: "item option"

text \<open>The state the server starts with; \<open>t0\<close> is the clock reading at start-up.\<close>

definition initial_lanes :: "string \<rightharpoonup> string list" where
  "initial_lanes =
     [''Unassigned'' \<mapsto> [], ''New York'' \<mapsto> [], ''Curacao'' \<mapsto> [],
      ''Piarco'' \<mapsto> [], ''Maiquetia'' \<mapsto> []]"

definition initial_state :: "int \<Rightarrow> board_state" where
  "initial_state t0 =
     \<lparr>lanes = initial_lanes, items = Map.empty, lastUpdated = t0, itemsProto = None\<rparr>"

text \<open>
  \<^verbatim>\<open>item.id\<close>: the \<^verbatim>\<open>id\<close> field of an item object. An absent field reads as
  \<^verbatim>\<open>undefined\<close>, which every guard treats like the empty string. An id that is not a
  string is outside the client's type \<^verbatim>\<open>BoardItem\<close> and is read as empty here.
\<close>

definition item_id :: "item \<Rightarrow> string" where
  "item_id it = (case it ''id'' of Some (JStr i) \<Rightarrow> i | _ \<Rightarrow> [])"

text \<open>\<^verbatim>\<open>mtime || Date.now()\<close>: an absent or zero \<^verbatim>\<open>mtime\<close> is falsy.\<close>

definition stamp :: "int option \<Rightarrow> int \<Rightarrow> int" where
  "stamp mtime now = (case mtime of None \<Rightarrow> now | Some t \<Rightarrow> if t = 0 then now else t)"

text \<open>
  \<^verbatim>\<open>arr.splice(index, 0, x)\<close>: a negative start counts from the end and is clamped at
  \<open>0\<close>, a start beyond the end is clamped at the length.
\<close>

definition splice_in :: "int \<Rightarrow> 'a \<Rightarrow> 'a list \<Rightarrow> 'a list" where
  "splice_in i x arr =
     (let n = int (length arr);
          k = nat (if i < 0 then max (n + i) 0 else min i n)
      in take k arr @ x # drop k arr)"

text \<open>
  The insertion both \<^verbatim>\<open>item:add\<close> and \<^verbatim>\<open>lanes:move\<close> perform: \<^verbatim>\<open>splice\<close> when an index
  was given, \<^verbatim>\<open>unshift\<close> otherwise.
\<close>

definition insert_at :: "int option \<Rightarrow> 'a \<Rightarrow> 'a list \<Rightarrow> 'a list" where
  "insert_at index x arr = (case index of Some i \<Rightarrow> splice_in i x arr | None \<Rightarrow> x # arr)"

section \<open>Property lookup on plain objects\<close>

text \<open>
  The language, not the repository, fixes the property names of \<^verbatim>\<open>Object.prototype\<close>
  (ECMAScript with its Annex B, as Node implements it). Each of them reads as a
  function, except \<^verbatim>\<open>__proto__\<close>, an accessor that reads as the prototype of the
  object it is read from and, when assigned an object, replaces that prototype. None
  of them is enumerable, and all the functions are writable.
\<close>

definition object_prototype_names :: "string list" where
  "object_prototype_names =
     [''constructor'', ''__defineGetter__'', ''__defineSetter__'', ''hasOwnProperty'',
      ''__lookupGetter__'', ''__lookupSetter__'', ''isPrototypeOf'',
      ''propertyIsEnumerable'', ''toString'', ''valueOf'', ''__proto__'',
      ''toLocaleString'']"

text \<open>Truthiness of a JSON value.\<close>

fun js_truthy :: "jsval \<Rightarrow> bool" where
  "js_truthy JNull = False"
| "js_truthy (JBool b) = b"
| "js_truthy (JNum n) = (n \<noteq> 0)"
| "js_truthy (JStr s) = (s \<noteq> [])"
| "js_truthy (JArr xs) = True"
| "js_truthy (JObj kvs) = True"

text \<open>
  What \<^verbatim>\<open>items[k]\<close> evaluates to: an item stored under the own key \<open>k\<close>; a property
  \<open>k\<close> of the object that was made the prototype of \<^verbatim>\<open>items\<close>; that prototype object
  itself (through the \<^verbatim>\<open>__proto__\<close> getter); a member of \<^verbatim>\<open>Object.prototype\<close> (for
  \<^verbatim>\<open>__proto__\<close> on an object with the default prototype this is \<^verbatim>\<open>Object.prototype\<close>
  itself); or \<^verbatim>\<open>undefined\<close>.
\<close>

datatype looked_up =
    Own item
  | Inherited jsval
  | Prototype item
  | Builtin
  | Undefined

definition items_get :: "board_state \<Rightarrow> string \<Rightarrow> looked_up" where
  "items_get s k =
     (case items s k of
        Some it \<Rightarrow> Own it
      | None \<Rightarrow>
          (case itemsProto s of
             None \<Rightarrow> if k \<in> set object_prototype_names then Builtin else Undefined
           | Some proto \<Rightarrow>
               (case proto k of
                  Some v \<Rightarrow> Inherited v
                | None \<Rightarrow>
                    if k = ''__proto__'' then Prototype proto
                    else if k \<in> set object_prototype_names then Builtin
                    else Undefined)))"

fun truthy :: "looked_up \<Rightarrow> bool" where
  "truthy (Own it) = True"
| "truthy (Inherited v) = js_truthy v"
| "truthy (Prototype proto) = True"
| "truthy Builtin = True"
| "truthy Undefined = False"

text \<open>Decimal numerals, the names of the index properties of strings and arrays.\<close>

fun decimal :: "nat \<Rightarrow> string" where
  "decimal n =
     (if n < 10 then [''0123456789'' ! n]
      else decimal (n div 10) @ [''0123456789'' ! (n mod 10)])"

declare decimal.simps [simp del]

definition index_props :: "'a list \<Rightarrow> (string \<rightharpoonup> 'a)" where
  "index_props xs = map_of (zip (map decimal [0..<length xs]) xs)"

text \<open>
  \<^verbatim>\<open>{ ...v }\<close>: the own enumerable properties of a value. A string has one per code
  unit and an array one per element, named by the index; \<open>JObj\<close> lists the properties
  of an object, each name once; a number, a boolean and \<^verbatim>\<open>null\<close> have none.
\<close>

fun spread_val :: "jsval \<Rightarrow> item" where
  "spread_val (JStr s) = index_props (map (\<lambda>c. JStr [c]) s)"
| "spread_val (JArr xs) = index_props xs"
| "spread_val (JObj kvs) = map_of kvs"
| "spread_val v = Map.empty"

fun spread :: "looked_up \<Rightarrow> item" where
  "spread (Own it) = it"
| "spread (Inherited v) = spread_val v"
| "spread (Prototype proto) = proto"
| "spread Builtin = Map.empty"
| "spread Undefined = Map.empty"

text \<open>
  The assignment \<^verbatim>\<open>items[k] = v\<close> for an object \<open>v\<close>. It creates or overwrites the own
  property \<open>k\<close>, unless \<open>k\<close> is \<^verbatim>\<open>__proto__\<close> and neither \<^verbatim>\<open>items\<close> nor the object that
  was made its prototype has an own property of that name: then the setter inherited
  from \<^verbatim>\<open>Object.prototype\<close> runs and \<open>v\<close> becomes the prototype of \<^verbatim>\<open>items\<close>.
\<close>

definition items_set :: "board_state \<Rightarrow> string \<Rightarrow> item \<Rightarrow> board_state" where
  "items_set s k v =
     (if k = ''__proto__'' \<and> items s k = None
         \<and> (case itemsProto s of None \<Rightarrow> True | Some proto \<Rightarrow> proto k = None)
      then s\<lparr>itemsProto := Some v\<rparr>
      else s\<lparr>items := (items s)(k \<mapsto> v)\<rparr>)"

text \<open>
  What \<^verbatim>\<open>lanes[l]\<close> evaluates to. The \<^verbatim>\<open>lanes\<close> object always has the default prototype:
  the handlers assign to \<^verbatim>\<open>lanes[l]\<close> only after \<^verbatim>\<open>lanes[l].filter\<close> was called.
\<close>

datatype lane_looked_up =
    LaneArray "string list"
  | LaneBuiltin
  | LaneUndefined

definition lanes_get :: "board_state \<Rightarrow> string \<Rightarrow> lane_looked_up" where
  "lanes_get s l =
     (case lanes s l of
        Some arr \<Rightarrow> LaneArray arr
      | None \<Rightarrow> if l \<in> set object_prototype_names then LaneBuiltin else LaneUndefined)"

section \<open>The Authority\<close>

datatype broadcast =
    ItemAddApply item string "int option" int
  | ItemDeleteApply string int
  | ItemPatchApply string patch int
  | LanesMoveApply string string string "int option" int

text \<open>
  A handler either returns, with the new state and the broadcast if there was one, or
  throws a \<^verbatim>\<open>TypeError\<close> (calling \<^verbatim>\<open>.filter\<close> on, or spreading, a value that is not an
  array), with the state as it is at the throw.
\<close>

datatype js_error = TypeError

type_synonym outcome = "(js_error \<times> board_state) + (board_state \<times> broadcast option)"

text \<open>The state a handler leaves behind and what it has broadcast.\<close>

definition left_behind :: "outcome \<Rightarrow> board_state \<times> broadcast option" where
  "left_behind r = (case r of Inl (e, s) \<Rightarrow> (s, None) | Inr res \<Rightarrow> res)"

text \<open>
  \<^verbatim>\<open>board:pull\<close>: nothing is assigned. The requester receives \<^verbatim>\<open>boardState\<close> as JSON,
  which carries the own properties of \<^verbatim>\<open>items\<close> and no prototype.
\<close>

definition board_pull :: "board_state \<Rightarrow> board_state \<times> board_state" where
  "board_pull s = (s, s\<lparr>itemsProto := None\<rparr>)"

text \<open>
  \<^verbatim>\<open>item:add\<close>. There is no test whether \<^verbatim>\<open>item.id\<close> is already a key of \<^verbatim>\<open>items\<close>.
  The guard \<^verbatim>\<open>!boardState.lanes[lane]\<close> lets an inherited name pass; the item is then
  stored and \<^verbatim>\<open>lanes[lane].filter\<close> throws.
\<close>

definition item_add_handler ::
  "int \<Rightarrow> item option \<Rightarrow> string \<Rightarrow> int option \<Rightarrow> int option \<Rightarrow> board_state \<Rightarrow> outcome" where
  "item_add_handler now item lane index mtime s =
     (case item of
        None \<Rightarrow> Inr (s, None)
      | Some it \<Rightarrow>
          if item_id it = [] \<or> lane = [] then Inr (s, None)
          else (case lanes_get s lane of
             LaneUndefined \<Rightarrow> Inr (s, None)
           | LaneBuiltin \<Rightarrow> Inl (TypeError, items_set s (item_id it) it)
           | LaneArray arr \<Rightarrow>
               let s1 = items_set s (item_id it) it;
                   laneArr = insert_at index (item_id it) (filter (\<lambda>x. x \<noteq> item_id it) arr);
                   lanes' = (lanes s)(lane \<mapsto> laneArr);
                   s' = s1\<lparr>lanes := lanes', lastUpdated := stamp mtime now\<rparr>
               in Inr (s', Some (ItemAddApply it lane index (lastUpdated s')))))"

definition item_add ::
  "int \<Rightarrow> item option \<Rightarrow> string \<Rightarrow> int option \<Rightarrow> int option \<Rightarrow> board_state
     \<Rightarrow> board_state \<times> broadcast option" where
  "item_add now item lane index mtime s =
     left_behind (item_add_handler now item lane index mtime s)"

text \<open>
  \<^verbatim>\<open>item:delete\<close>. The guard \<^verbatim>\<open>!boardState.items[id]\<close> is a lookup along the prototype
  chain. \<^verbatim>\<open>{ ...boardState.items }\<close> is a new object with the own properties, so the
  prototype is the default one again; the id leaves \<^verbatim>\<open>items\<close> and every lane.
\<close>

definition item_delete ::
  "int \<Rightarrow> string \<Rightarrow> int option \<Rightarrow> board_state \<Rightarrow> board_state \<times> broadcast option" where
  "item_delete now iid mtime s =
     (if iid = [] \<or> \<not> truthy (items_get s iid) then (s, None)
      else
        let items' = (items s)(iid := None);
            lanes' = (\<lambda>laneKey. map_option (filter (\<lambda>x. x \<noteq> iid)) (lanes s laneKey));
            s' = s\<lparr>items := items', itemsProto := None, lanes := lanes',
                   lastUpdated := stamp mtime now\<rparr>
        in (s', Some (ItemDeleteApply iid (lastUpdated s'))))"

text \<open>
  \<^verbatim>\<open>item:patch\<close>. The payload's \<^verbatim>\<open>patch\<close> is \<open>None\<close> when it is falsy or not of type
  \<^verbatim>\<open>'object'\<close>, and otherwise the map of its own properties. \<^verbatim>\<open>existing\<close> is whatever
  the lookup \<^verbatim>\<open>boardState.items[id]\<close> finds, and \<^verbatim>\<open>{ ...existing, ...patch }\<close> is
  \<open>spread existing ++ patch\<close>.
\<close>

definition item_patch ::
  "int \<Rightarrow> string \<Rightarrow> patch option \<Rightarrow> int option \<Rightarrow> board_state
     \<Rightarrow> board_state \<times> broadcast option" where
  "item_patch now iid patch mtime s =
     (case patch of
        None \<Rightarrow> (s, None)
      | Some p \<Rightarrow>
          if iid = [] then (s, None)
          else
            let existing = items_get s iid
            in if \<not> truthy existing then (s, None)
               else
                 let s' = (items_set s iid (spread existing ++ p))
                            \<lparr>lastUpdated := stamp mtime now\<rparr>
                 in (s', Some (ItemPatchApply iid p (lastUpdated s'))))"

text \<open>
  \<^verbatim>\<open>lanes:move\<close>. \<^verbatim>\<open>toArr\<close> is built from \<^verbatim>\<open>lanes[to]\<close> as it was, and in
  \<^verbatim>\<open>{ ...lanes, [from]: fromArr, [to]: toArr }\<close> the later key wins when both are equal.
  There is no test whether \<^verbatim>\<open>id\<close> is a key of \<^verbatim>\<open>items\<close> or occurs in \<^verbatim>\<open>lanes[from]\<close>.
  An inherited name passes the guard; \<^verbatim>\<open>lanes[from].filter\<close> or \<^verbatim>\<open>[...lanes[to]]\<close> then
  throws before anything is assigned.
\<close>

definition lanes_move_handler ::
  "int \<Rightarrow> string \<Rightarrow> string \<Rightarrow> string \<Rightarrow> int option \<Rightarrow> int option \<Rightarrow> board_state
     \<Rightarrow> outcome" where
  "lanes_move_handler now iid from to index mtime s =
     (if iid = [] \<or> from = [] \<or> to = [] then Inr (s, None)
      else if lanes_get s from = LaneUndefined \<or> lanes_get s to = LaneUndefined
      then Inr (s, None)
      else (case (lanes_get s from, lanes_get s to) of
         (LaneArray fromLane, LaneArray toLane) \<Rightarrow>
           let fromArr = filter (\<lambda>x. x \<noteq> iid) fromLane;
               toArr = insert_at index iid toLane;
               s' = s\<lparr>lanes := (lanes s)(from \<mapsto> fromArr, to \<mapsto> toArr),
                      lastUpdated := stamp mtime now\<rparr>
           in Inr (s', Some (LanesMoveApply iid from to index (lastUpdated s')))
       | _ \<Rightarrow> Inl (TypeError, s)))"

definition lanes_move ::
  "int \<Rightarrow> string \<Rightarrow> string \<Rightarrow> string \<Rightarrow> int option \<Rightarrow> int option \<Rightarrow> board_state
     \<Rightarrow> board_state \<times> broadcast option" where
  "lanes_move now iid from to index mtime s =
     left_behind (lanes_move_handler now iid from to index mtime s)"

text \<open>The four mutation requests, each with its \<^verbatim>\<open>mtime\<close> last, and their dispatch.\<close>

datatype request =
    Add "item option" string "int option" "int option"
  | Delete string "int option"
  | Patch string "patch option" "int option"
  | Move string string string "int option" "int option"

fun authority :: "int \<Rightarrow> request \<Rightarrow> board_state \<Rightarrow> board_state \<times> broadcast option" where
  "authority now (Add item lane index mtime) s = item_add now item lane index mtime s"
| "authority now (Delete iid mtime) s = item_delete now iid mtime s"
| "authority now (Patch iid patch mtime) s = item_patch now iid patch mtime s"
| "authority now (Move iid from to index mtime) s = lanes_move now iid from to index mtime s"

text \<open>A request is accepted when its handler runs to the broadcast.\<close>

definition accepted :: "int \<Rightarrow> request \<Rightarrow> board_state \<Rightarrow> bool" where
  "accepted now r s = (snd (authority now r s) \<noteq> None)"

section \<open>The Replica\<close>

text \<open>
  \<^verbatim>\<open>board:state\<close>: the local state is replaced by the incoming one, each lane filtered
  by \<^verbatim>\<open>!!incoming.items[id]\<close>, a lookup along the prototype chain of the incoming
  \<^verbatim>\<open>items\<close>. The previous local state \<open>prev\<close> is not read.
\<close>

definition on_board_state :: "board_state \<Rightarrow> board_state \<Rightarrow> board_state" where
  "on_board_state prev incoming =
     incoming\<lparr>lanes :=
       (\<lambda>laneKey. map_option (filter (\<lambda>iid. truthy (items_get incoming iid)))
          (lanes incoming laneKey))\<rparr>"

text \<open>
  \<^verbatim>\<open>item:patch:apply\<close>; the Authority only ever broadcasts an object as \<^verbatim>\<open>patch\<close>. The
  new \<^verbatim>\<open>items\<close> is an object literal: the computed key is an own property whatever
  its name, and the prototype is the default one.
\<close>

definition on_patch_apply ::
  "int \<Rightarrow> string \<Rightarrow> patch \<Rightarrow> int option \<Rightarrow> board_state \<Rightarrow> board_state" where
  "on_patch_apply now iid p mtime prev =
     (let existing = items_get prev iid
      in if \<not> truthy existing then prev
         else prev\<lparr>items := (items prev)(iid \<mapsto> spread existing ++ p), itemsProto := None,
                    lastUpdated := stamp mtime now\<rparr>)"

section \<open>Runs of the Authority and what is read off a state\<close>

text \<open>
  The Authority handles one request at a time, in arrival order. A run is the list of
  requests, each paired with the clock reading at its arrival.
\<close>

fun run :: "(int \<times> request) list \<Rightarrow> board_state \<Rightarrow> board_state" where
  "run [] s = s"
| "run ((now, r) # rs) s = run rs (fst (authority now r s))"

fun accepted_run :: "(int \<times> request) list \<Rightarrow> board_state \<Rightarrow> bool" where
  "accepted_run [] s = True"
| "accepted_run ((now, r) # rs) s =
     (accepted now r s \<and> accepted_run rs (fst (authority now r s)))"

text \<open>\<^verbatim>\<open>state.lanes[l].includes(x)\<close>, false for a lane that does not exist.\<close>

definition listed :: "board_state \<Rightarrow> string \<Rightarrow> string \<Rightarrow> bool" where
  "listed s l x = (case lanes s l of None \<Rightarrow> False | Some arr \<Rightarrow> x \<in> set arr)"

text \<open>
  What the client of this repository sends: \<^verbatim>\<open>addPilotToUnassigned\<close> adds an item under
  a fresh \<^verbatim>\<open>uuidv4()\<close>, and \<^verbatim>\<open>handleDragEnd\<close> moves an item out of the lane whose list
  includes it. The handlers themselves do not test either condition. An add is also
  orderly when its lane already lists the id.
\<close>

fun orderly :: "request \<Rightarrow> board_state \<Rightarrow> bool" where
  "orderly (Add item lane index mtime) s =
     (case item of
        None \<Rightarrow> True
      | Some it \<Rightarrow>
          (items s (item_id it) = None \<and> item_id it \<noteq> ''__proto__'')
          \<or> listed s lane (item_id it))"
| "orderly (Delete iid mtime) s = True"
| "orderly (Patch iid patch mtime) s = True"
| "orderly (Move iid from to index mtime) s = listed s from iid"

fun orderly_run :: "(int \<times> request) list \<Rightarrow> board_state \<Rightarrow> bool" where
  "orderly_run [] s = True"
| "orderly_run ((now, r) # rs) s =
     (accepted now r s \<and> orderly r s \<and> orderly_run rs (fst (authority now r s)))"

text \<open>The \<^verbatim>\<open>mtime\<close> a request carries.\<close>

fun mtime_of :: "request \<Rightarrow> int option" where
  "mtime_of (Add item lane index mtime) = mtime"
| "mtime_of (Delete iid mtime) = mtime"
| "mtime_of (Patch iid patch mtime) = mtime"
| "mtime_of (Move iid from to index mtime) = mtime"

text \<open>
  The field \<open>f\<close> of the item stored under the own key \<open>iid\<close> of \<^verbatim>\<open>items\<close>, with \<open>None\<close>
  when there is no such item or no such field.
\<close>

definition field_of :: "board_state \<Rightarrow> string \<Rightarrow> string \<Rightarrow> jsval option" where
  "field_of s iid f = (case items s iid of None \<Rightarrow> None | Some it \<Rightarrow> it f)"

text \<open>Invariants 1 and 2 of the board: listed ids are items, and no id is in two lanes.\<close>

definition integrity :: "board_state \<Rightarrow> bool" where
  "integrity s =
     ((\<forall>l x. listed s l x \<longrightarrow> items s x \<noteq> None)
      \<and> (\<forall>l1 l2 x. listed s l1 x \<longrightarrow> listed s l2 x \<longrightarrow> l1 = l2))"

section \<open>Scenario values\<close>

text \<open>Two item objects with the same id, and the state after the first was added.\<close>

definition jbu123 :: item where
  "jbu123 =
     [''id'' \<mapsto> JStr ''x1'', ''source'' \<mapsto> JStr ''vatsim'',
      ''callsign'' \<mapsto> JStr ''JBU123'', ''altitude'' \<mapsto> JStr ''FL280'']"

definition dal9 :: item where
  "dal9 =
     [''id'' \<mapsto> JStr ''x1'', ''source'' \<mapsto> JStr ''manual'',
      ''callsign'' \<mapsto> JStr ''DAL9'', ''altitude'' \<mapsto> JStr ''FL410'']"

definition board1 :: board_state where
  "board1 = fst (item_add 100 (Some jbu123) ''Unassigned'' None (Some 100) (initial_state 1))"

text \<open>
  The Authority after it was asked to move the id \<^verbatim>\<open>toString\<close>, which was never added,
  and the snapshot it then sends.
\<close>

definition haunted_board :: board_state where
  "haunted_board =
     fst (lanes_move 300 ''toString'' ''Unassigned'' ''New York'' None (Some 300)
            (initial_state 1))"

definition haunted_snapshot :: board_state where
  "haunted_snapshot = snd (board_pull haunted_board)"

text \<open>An add, a move to another lane and a patch, as the client sends them.\<close>

definition session1 :: "(int \<times> request) list" where
  "session1 =
     [(100, Add (Some jbu123) ''Unassigned'' None (Some 100)),
      (200, Move ''x1'' ''Unassigned'' ''New York'' (Some 0) (Some 200)),
      (300, Patch ''x1'' (Some [''altitude'' \<mapsto> JStr ''FL350'']) (Some 300))]"

text \<open>A move of an id that was never added, and the same item added to two lanes.\<close>

definition ghost_move :: "(int \<times> request) list" where
  "ghost_move = [(300, Move ''ghost'' ''Unassigned'' ''New York'' None (Some 300))]"

definition double_add :: "(int \<times> request) list" where
  "double_add =
     [(100, Add (Some jbu123) ''Unassigned'' None (Some 100)),
      (200, Add (Some jbu123) ''New York'' None (Some 200))]"

section \<open>Lists: inserting and counting\<close>

lemma count_list_take_drop:
  "count_list (take k arr) y + count_list (drop k arr) y = count_list arr y"
  by (metis append_take_drop_id count_list_append)

lemma count_list_splice_in:
  "count_list (splice_in i x arr) y = count_list arr y + (if x = y then 1 else 0)"
  using count_list_take_drop [of _ arr y] by (simp add: splice_in_def Let_def)

lemma count_list_insert_at:
  "count_list (insert_at index x arr) y = count_list arr y + (if x = y then 1 else 0)"
  by (cases index) (simp_all add: insert_at_def count_list_splice_in)

lemma set_splice_in: "set (splice_in i x arr) = insert x (set arr)"
proof -
  have "set (take k arr) \<union> set (drop k arr) = set arr" for k
    by (metis append_take_drop_id set_append)
  then show ?thesis by (auto simp: splice_in_def Let_def)
qed

lemma set_insert_at: "set (insert_at index x arr) = insert x (set arr)"
  by (cases index) (simp_all add: insert_at_def set_splice_in)

lemma count_list_filter_neq: "count_list (filter (\<lambda>x. x \<noteq> y) arr) y = 0"
  by (simp add: count_list_0_iff)

section \<open>Lookups and assignments\<close>

lemma lanes_get_own: "lanes s l = Some arr \<Longrightarrow> lanes_get s l = LaneArray arr"
  by (simp add: lanes_get_def)

lemma lanes_get_array: "lanes_get s l = LaneArray arr \<Longrightarrow> lanes s l = Some arr"
  by (auto simp: lanes_get_def split: option.splits if_splits)

lemma items_get_own: "items s k = Some it \<Longrightarrow> items_get s k = Own it"
  by (simp add: items_get_def)

lemma items_set_own:
  "items s k = Some old \<Longrightarrow> items_set s k v = s\<lparr>items := (items s)(k \<mapsto> v)\<rparr>"
  by (simp add: items_set_def)

lemma items_set_plain:
  "k \<noteq> ''__proto__'' \<Longrightarrow> items_set s k v = s\<lparr>items := (items s)(k \<mapsto> v)\<rparr>"
  by (simp add: items_set_def)

lemma items_set_frame:
  "lanes (items_set s k v) = lanes s" "lastUpdated (items_set s k v) = lastUpdated s"
  by (simp_all add: items_set_def)

lemma items_set_keeps_keys: "dom (items s) \<subseteq> dom (items (items_set s k v))"
  by (auto simp: items_set_def)

text \<open>What an accepted request was, and the state after it.\<close>

lemma rejected_add:
  "snd (item_add now item lane index mtime s) = None
     \<Longrightarrow> lanes (fst (item_add now item lane index mtime s)) = lanes s
       \<and> dom (items s) \<subseteq> dom (items (fst (item_add now item lane index mtime s)))"
proof (cases "item_add_handler now item lane index mtime s")
  case (Inl thrown)
  then obtain it where "thrown = (TypeError, items_set s (item_id it) it)"
    by (auto simp: item_add_handler_def Let_def
          split: option.splits if_splits lane_looked_up.splits)
  with Inl show ?thesis
    using items_set_keeps_keys [of s "item_id it" it]
    by (simp add: item_add_def left_behind_def items_set_frame)
next
  case (Inr returned)
  assume "snd (item_add now item lane index mtime s) = None"
  with Inr have "returned = (s, None)"
    by (auto simp: item_add_def item_add_handler_def left_behind_def Let_def
          split: option.splits if_splits lane_looked_up.splits)
  with Inr show ?thesis
    by (simp add: item_add_def left_behind_def)
qed

lemma accepted_add:
  assumes "snd (item_add now item lane index mtime s) \<noteq> None"
  shows "\<exists>it arr. item = Some it \<and> item_id it \<noteq> [] \<and> lane \<noteq> [] \<and> lanes s lane = Some arr
    \<and> fst (item_add now item lane index mtime s)
        = (items_set s (item_id it) it)
            \<lparr>lanes := (lanes s)(lane \<mapsto>
                 insert_at index (item_id it) (filter (\<lambda>x. x \<noteq> item_id it) arr)),
             lastUpdated := stamp mtime now\<rparr>
    \<and> snd (item_add now item lane index mtime s)
        = Some (ItemAddApply it lane index (stamp mtime now))"
  using assms
  by (auto simp: item_add_def item_add_handler_def left_behind_def Let_def
        dest: lanes_get_array split: option.splits if_splits lane_looked_up.splits)

lemma rejected_move:
  "snd (lanes_move now iid from to index mtime s) = None
     \<Longrightarrow> fst (lanes_move now iid from to index mtime s) = s"
  by (auto simp: lanes_move_def lanes_move_handler_def left_behind_def Let_def
        split: option.splits if_splits lane_looked_up.splits)

lemma accepted_move:
  assumes "snd (lanes_move now iid from to index mtime s) \<noteq> None"
  shows "\<exists>fromLane toLane. lanes s from = Some fromLane \<and> lanes s to = Some toLane
    \<and> fst (lanes_move now iid from to index mtime s)
        = s\<lparr>lanes := (lanes s)(from \<mapsto> filter (\<lambda>x. x \<noteq> iid) fromLane,
                                 to \<mapsto> insert_at index iid toLane),
             lastUpdated := stamp mtime now\<rparr>"
  using assms
  by (auto simp: lanes_move_def lanes_move_handler_def left_behind_def Let_def
        dest: lanes_get_array split: option.splits if_splits lane_looked_up.splits)

section \<open>The scenario values, evaluated\<close>

lemma item_id_jbu123: "item_id jbu123 = ''x1''"
  by (simp add: item_id_def jbu123_def)

lemma item_id_dal9: "item_id dal9 = ''x1''"
  by (simp add: item_id_def dal9_def)

lemma initial_lanes_simps:
  "initial_lanes ''Unassigned'' = Some []" "initial_lanes ''New York'' = Some []"
  by (simp_all add: initial_lanes_def)

lemma initial_state_simps:
  "lanes (initial_state t0) = initial_lanes" "items (initial_state t0) = Map.empty"
  "lastUpdated (initial_state t0) = t0" "itemsProto (initial_state t0) = None"
  by (simp_all add: initial_state_def)

lemma board1_simps:
  "lanes board1 ''Unassigned'' = Some [''x1'']"
  "lanes board1 ''New York'' = Some []"
  "items board1 ''x1'' = Some jbu123"
  "lastUpdated board1 = 100"
  by (simp_all add: board1_def item_add_def item_add_handler_def left_behind_def
        lanes_get_def items_set_def initial_state_simps initial_lanes_simps
        item_id_jbu123 insert_at_def stamp_def Let_def)

lemma dal9_differs: "dal9 \<noteq> jbu123"
proof -
  have "dal9 ''callsign'' \<noteq> jbu123 ''callsign''"
    by (simp add: dal9_def jbu123_def)
  then show ?thesis by metis
qed

lemma toString_inherited: "''toString'' \<in> set object_prototype_names"
  by (simp add: object_prototype_names_def)

lemma haunted_board_simps:
  "lanes haunted_board ''New York'' = Some [''toString'']"
  "items haunted_board = Map.empty"
  "itemsProto haunted_board = None"
  by (simp_all add: haunted_board_def lanes_move_def lanes_move_handler_def left_behind_def
        lanes_get_def initial_state_simps initial_lanes_simps insert_at_def Let_def)

section \<open>Reading the current state\<close>

text \<open>
  C6. \<^verbatim>\<open>board:pull\<close> leaves the Authority's state as it was, and a second pull right
  after the first returns the same lanes, items and \<^verbatim>\<open>lastUpdated\<close> as the first.
\<close>

theorem pull_idempotent:
  "fst (board_pull s) = s \<and> snd (board_pull (fst (board_pull s))) = snd (board_pull s)"
  by (simp add: board_pull_def)

section \<open>Deleting\<close>

text \<open>
  C5 says that a \<^verbatim>\<open>item:delete\<close> whose id is not a key of \<^verbatim>\<open>items\<close> changes nothing and
  broadcasts nothing. The guard \<^verbatim>\<open>!boardState.items[id]\<close> is meant to see to that, but
  the lookup also finds what \<^verbatim>\<open>items\<close> inherits: on the freshly started Authority,
  whose \<^verbatim>\<open>items\<close> has no key at all, deleting the id \<^verbatim>\<open>toString\<close> stamps \<^verbatim>\<open>lastUpdated\<close>
  and is broadcast.
\<close>

theorem delete_inherited_name_is_applied:
  "items (initial_state 1) ''toString'' = None
   \<and> snd (item_delete 7 ''toString'' (Some 7) (initial_state 1))
       = Some (ItemDeleteApply ''toString'' 7)
   \<and> lastUpdated (initial_state 1) = 1
   \<and> lastUpdated (fst (item_delete 7 ''toString'' (Some 7) (initial_state 1))) = 7"
  by (simp add: item_delete_def items_get_def truthy.simps toString_inherited
        initial_state_simps stamp_def Let_def)

section \<open>Adding\<close>

text \<open>
  C10. After an accepted \<^verbatim>\<open>item:add\<close> the lane named in the request lists the item's
  id exactly once, whatever the lane held before: the handler filters the id out of
  the lane before it inserts it.
\<close>

theorem add_lane_has_id_once:
  assumes "snd (item_add now item lane index mtime s) \<noteq> None"
  shows "\<exists>it arr. item = Some it
           \<and> lanes (fst (item_add now item lane index mtime s)) lane = Some arr
           \<and> count_list arr (item_id it) = 1"
proof -
  from accepted_add [OF assms] obtain it arr where "item = Some it"
    and "fst (item_add now item lane index mtime s)
        = (items_set s (item_id it) it)
            \<lparr>lanes := (lanes s)(lane \<mapsto>
                 insert_at index (item_id it) (filter (\<lambda>x. x \<noteq> item_id it) arr)),
             lastUpdated := stamp mtime now\<rparr>"
    by blast
  then show ?thesis
    by (simp add: count_list_insert_at count_list_filter_neq)
qed

theorem add_lane_has_id_once_witness:
  "snd (item_add 200 (Some dal9) ''Unassigned'' (Some 1) (Some 200) board1) \<noteq> None
   \<and> lanes (fst (item_add 200 (Some dal9) ''Unassigned'' (Some 1) (Some 200) board1))
        ''Unassigned'' = Some [''x1'']"
proof -
  have acc: "snd (item_add 200 (Some dal9) ''Unassigned'' (Some 1) (Some 200) board1) \<noteq> None"
    by (simp add: item_add_def item_add_handler_def left_behind_def lanes_get_def
          board1_simps item_id_dal9 Let_def)
  have "lanes (fst (item_add 200 (Some dal9) ''Unassigned'' (Some 1) (Some 200) board1))
          ''Unassigned'' = Some [''x1'']"
    by (simp add: item_add_def item_add_handler_def left_behind_def lanes_get_def
          board1_simps item_id_dal9 Let_def insert_at_def splice_in_def)
  with acc add_lane_has_id_once [OF acc] show ?thesis by simp
qed

text \<open>
  C2, as stated, fails: an \<^verbatim>\<open>item:add\<close> whose id is already a key of \<^verbatim>\<open>items\<close> is
  handled like any other add. With \<open>x1\<close> stored as \<open>jbu123\<close> in lane Unassigned, adding
  \<open>dal9\<close> (same id) to lane New York broadcasts, replaces the stored record, changes
  the New York list and stamps \<^verbatim>\<open>lastUpdated\<close>.
\<close>

theorem add_existing_id_counterexample:
  "items board1 (item_id dal9) = Some jbu123
   \<and> snd (item_add 200 (Some dal9) ''New York'' None (Some 200) board1)
       = Some (ItemAddApply dal9 ''New York'' None 200)
   \<and> items (fst (item_add 200 (Some dal9) ''New York'' None (Some 200) board1)) ''x1''
       = Some dal9
   \<and> dal9 \<noteq> jbu123
   \<and> lanes board1 ''New York'' = Some []
   \<and> lanes (fst (item_add 200 (Some dal9) ''New York'' None (Some 200) board1)) ''New York''
       = Some [''x1'']
   \<and> lastUpdated board1 = 100
   \<and> lastUpdated (fst (item_add 200 (Some dal9) ''New York'' None (Some 200) board1)) = 200"
  by (simp add: item_add_def item_add_handler_def left_behind_def lanes_get_def
        items_set_plain board1_simps item_id_dal9 dal9_differs Let_def insert_at_def
        stamp_def)

text \<open>
  C2, amended. An \<^verbatim>\<open>item:add\<close> whose item has a non-empty id that is already a key of
  \<^verbatim>\<open>items\<close>, for a non-empty known lane, is accepted: the request is broadcast, the
  payload's item replaces the record stored under that id, and \<^verbatim>\<open>lastUpdated\<close> is
  stamped.
\<close>

theorem add_existing_id_overwrites:
  assumes "items s (item_id it) = Some old" and "item_id it \<noteq> []" and "lane \<noteq> []"
    and "lanes s lane = Some arr"
  shows "snd (item_add now (Some it) lane index mtime s)
           = Some (ItemAddApply it lane index (stamp mtime now))
         \<and> items (fst (item_add now (Some it) lane index mtime s)) (item_id it) = Some it
         \<and> lastUpdated (fst (item_add now (Some it) lane index mtime s)) = stamp mtime now"
  using assms
  by (simp add: item_add_def item_add_handler_def left_behind_def lanes_get_own
        items_set_own Let_def)

theorem add_existing_id_overwrites_witness:
  "items board1 (item_id dal9) = Some jbu123 \<and> item_id dal9 \<noteq> [] \<and> ''New York'' \<noteq> []
   \<and> lanes board1 ''New York'' = Some []
   \<and> items (fst (item_add 200 (Some dal9) ''New York'' None (Some 200) board1)) ''x1''
       = Some dal9"
  using add_existing_id_overwrites
          [of board1 dal9 jbu123 "''New York''" "[]" 200 None "Some 200"]
  by (simp add: board1_simps item_id_dal9)

section \<open>Moving\<close>

text \<open>
  C3, as stated, fails in two ways. A move within one lane leaves the id in the lane
  twice: \<open>x1\<close> is alone in Unassigned, and after moving it from Unassigned to Unassigned
  the list is \<open>[x1, x1]\<close>. And a move into a lane that already lists the id lists it
  twice: the same move from Unassigned to New York, handled a second time, leaves
  New York with \<open>[x1, x1]\<close>.
\<close>

theorem move_counterexample:
  "lanes board1 ''Unassigned'' = Some [''x1'']
   \<and> snd (lanes_move 300 ''x1'' ''Unassigned'' ''Unassigned'' (Some 0) (Some 300) board1)
       \<noteq> None
   \<and> lanes (fst (lanes_move 300 ''x1'' ''Unassigned'' ''Unassigned'' (Some 0) (Some 300)
        board1)) ''Unassigned'' = Some [''x1'', ''x1'']
   \<and> snd (lanes_move 400 ''x1'' ''Unassigned'' ''New York'' None (Some 400)
        (fst (lanes_move 300 ''x1'' ''Unassigned'' ''New York'' None (Some 300) board1)))
       \<noteq> None
   \<and> lanes (fst (lanes_move 400 ''x1'' ''Unassigned'' ''New York'' None (Some 400)
        (fst (lanes_move 300 ''x1'' ''Unassigned'' ''New York'' None (Some 300) board1))))
        ''New York'' = Some [''x1'', ''x1'']"
  by (simp add: lanes_move_def lanes_move_handler_def left_behind_def lanes_get_def
        board1_simps Let_def insert_at_def splice_in_def)

text \<open>
  C3, amended. After an accepted \<^verbatim>\<open>lanes:move\<close> between two different lanes, of an id
  that the target lane did not list yet, the id is absent from the source lane's list
  and occurs exactly once in the target lane's list, and \<^verbatim>\<open>items\<close> is unchanged.
\<close>

theorem move_between_lanes:
  assumes "snd (lanes_move now iid from to index mtime s) \<noteq> None"
    and "from \<noteq> to" and "lanes s to = Some toLane" and "iid \<notin> set toLane"
  shows "\<exists>fromArr toArr.
           lanes (fst (lanes_move now iid from to index mtime s)) from = Some fromArr
           \<and> iid \<notin> set fromArr
           \<and> lanes (fst (lanes_move now iid from to index mtime s)) to = Some toArr
           \<and> count_list toArr iid = 1
           \<and> items (fst (lanes_move now iid from to index mtime s)) = items s"
proof -
  from accepted_move [OF assms(1)] obtain fromLane toLane'
    where "lanes s from = Some fromLane" and "lanes s to = Some toLane'"
      and "fst (lanes_move now iid from to index mtime s)
        = s\<lparr>lanes := (lanes s)(from \<mapsto> filter (\<lambda>x. x \<noteq> iid) fromLane,
                                 to \<mapsto> insert_at index iid toLane'),
             lastUpdated := stamp mtime now\<rparr>"
    by blast
  with assms(2-4) show ?thesis
    by (simp add: count_list_insert_at)
qed

theorem move_between_lanes_witness:
  "snd (lanes_move 200 ''x1'' ''Unassigned'' ''New York'' (Some 0) (Some 200) board1) \<noteq> None
   \<and> ''Unassigned'' \<noteq> ''New York'' \<and> lanes board1 ''New York'' = Some []
   \<and> ''x1'' \<notin> set ([] :: string list)
   \<and> lanes (fst (lanes_move 200 ''x1'' ''Unassigned'' ''New York'' (Some 0) (Some 200) board1))
        ''Unassigned'' = Some []
   \<and> lanes (fst (lanes_move 200 ''x1'' ''Unassigned'' ''New York'' (Some 0) (Some 200) board1))
        ''New York'' = Some [''x1'']"
proof -
  have acc: "snd (lanes_move 200 ''x1'' ''Unassigned'' ''New York'' (Some 0) (Some 200) board1)
      \<noteq> None"
    by (simp add: lanes_move_def lanes_move_handler_def left_behind_def lanes_get_def
          board1_simps Let_def)
  have "lanes (fst (lanes_move 200 ''x1'' ''Unassigned'' ''New York'' (Some 0) (Some 200)
          board1)) ''Unassigned'' = Some []"
    and "lanes (fst (lanes_move 200 ''x1'' ''Unassigned'' ''New York'' (Some 0) (Some 200)
          board1)) ''New York'' = Some [''x1'']"
    by (simp_all add: lanes_move_def lanes_move_handler_def left_behind_def lanes_get_def
          board1_simps Let_def insert_at_def splice_in_def)
  with acc move_between_lanes [OF acc, of "[]"] show ?thesis
    by (simp add: board1_simps)
qed

section \<open>Patching\<close>

text \<open>
  C4, as stated, fails: the merge \<^verbatim>\<open>{ ...existing, ...patch }\<close> takes every key of the
  patch, \<^verbatim>\<open>id\<close> and \<^verbatim>\<open>source\<close> included. Patching \<open>x1\<close> with
  \<^verbatim>\<open>{ id: "zz", source: "manual" }\<close> is accepted and replaces both fields of the
  stored item.
\<close>

theorem patch_replaces_id_counterexample:
  "field_of board1 ''x1'' ''id'' = Some (JStr ''x1'')
   \<and> field_of board1 ''x1'' ''source'' = Some (JStr ''vatsim'')
   \<and> snd (item_patch 300 ''x1'' (Some [''id'' \<mapsto> JStr ''zz'', ''source'' \<mapsto> JStr ''manual''])
        (Some 300) board1) \<noteq> None
   \<and> field_of (fst (item_patch 300 ''x1''
        (Some [''id'' \<mapsto> JStr ''zz'', ''source'' \<mapsto> JStr ''manual'']) (Some 300) board1))
        ''x1'' ''id'' = Some (JStr ''zz'')
   \<and> field_of (fst (item_patch 300 ''x1''
        (Some [''id'' \<mapsto> JStr ''zz'', ''source'' \<mapsto> JStr ''manual'']) (Some 300) board1))
        ''x1'' ''source'' = Some (JStr ''manual'')"
  by (simp add: field_of_def item_patch_def items_get_own items_set_plain board1_simps
        Let_def map_add_def jbu123_def)

text \<open>
  C4, amended. After an accepted \<^verbatim>\<open>item:patch\<close> of an existing item, every field of the
  item that the patch does not name has the value it had before; this holds for
  \<^verbatim>\<open>id\<close> and \<^verbatim>\<open>source\<close> whenever the patch does not name them, as no patch of the
  client's type \<^verbatim>\<open>Partial<BoardItemFields>\<close> does. The guard of the handler also lets
  through a name that \<^verbatim>\<open>items\<close> only inherits, where no item exists before the patch;
  that the item exists under its own key is therefore a hypothesis of its own.
\<close>

theorem patch_keeps_unnamed_fields:
  assumes "snd (item_patch now iid (Some p) mtime s) \<noteq> None"
    and "items s iid = Some existing" and "p f = None"
  shows "field_of (fst (item_patch now iid (Some p) mtime s)) iid f = field_of s iid f"
  using assms
  by (auto simp: field_of_def item_patch_def items_get_own items_set_own Let_def map_add_def
           split: if_splits)

theorem patch_keeps_unnamed_fields_witness:
  "snd (item_patch 300 ''x1'' (Some [''altitude'' \<mapsto> JStr ''FL350'']) (Some 300) board1) \<noteq> None
   \<and> items board1 ''x1'' = Some jbu123
   \<and> [''altitude'' \<mapsto> JStr ''FL350''] ''id'' = None
   \<and> field_of (fst (item_patch 300 ''x1'' (Some [''altitude'' \<mapsto> JStr ''FL350'']) (Some 300)
        board1)) ''x1'' ''id'' = Some (JStr ''x1'')"
proof -
  have acc: "snd (item_patch 300 ''x1'' (Some [''altitude'' \<mapsto> JStr ''FL350'']) (Some 300)
      board1) \<noteq> None"
    by (simp add: item_patch_def items_get_own board1_simps Let_def)
  have unnamed: "[''altitude'' \<mapsto> JStr ''FL350''] ''id'' = None"
    by simp
  have before: "field_of board1 ''x1'' ''id'' = Some (JStr ''x1'')"
    by (simp add: field_of_def board1_simps jbu123_def)
  have "field_of (fst (item_patch 300 ''x1'' (Some [''altitude'' \<mapsto> JStr ''FL350''])
          (Some 300) board1)) ''x1'' ''id'' = field_of board1 ''x1'' ''id''"
    by (rule patch_keeps_unnamed_fields [OF acc board1_simps(3) unnamed])
  then have "field_of (fst (item_patch 300 ''x1''
          (Some [''altitude'' \<mapsto> JStr ''FL350'']) (Some 300) board1)) ''x1'' ''id''
        = Some (JStr ''x1'')"
    using before by (rule trans)
  with acc board1_simps(3) unnamed show ?thesis by (intro conjI)
qed

text \<open>
  C7. When two patches for the same existing item both name a field, the item holds
  the second patch's value for that field after both were applied in order: at a
  Replica applying the two \<^verbatim>\<open>item:patch:apply\<close> broadcasts, and at the Authority
  handling the two \<^verbatim>\<open>item:patch\<close> requests (there for a non-empty id).
\<close>

theorem last_applied_patch_wins:
  assumes "items s iid = Some existing" and "p1 f = Some v1" and "p2 f = Some v2"
  shows "field_of (on_patch_apply now2 iid p2 mtime2 (on_patch_apply now1 iid p1 mtime1 s))
           iid f = Some v2
       \<and> (iid \<noteq> [] \<longrightarrow>
            field_of (fst (item_patch now2 iid (Some p2) mtime2
                        (fst (item_patch now1 iid (Some p1) mtime1 s)))) iid f = Some v2)"
  using assms
  by (simp add: field_of_def on_patch_apply_def item_patch_def items_get_def items_set_def
        Let_def)

theorem last_applied_patch_wins_witness:
  "items board1 ''x1'' = Some jbu123
   \<and> field_of (on_patch_apply 400 ''x1'' [''altitude'' \<mapsto> JStr ''FL350''] (Some 400)
        (on_patch_apply 300 ''x1'' [''altitude'' \<mapsto> JStr ''FL300''] (Some 300) board1))
        ''x1'' ''altitude'' = Some (JStr ''FL350'')
   \<and> field_of (fst (item_patch 400 ''x1'' (Some [''altitude'' \<mapsto> JStr ''FL350'']) (Some 400)
        (fst (item_patch 300 ''x1'' (Some [''altitude'' \<mapsto> JStr ''FL300'']) (Some 300)
          board1)))) ''x1'' ''altitude'' = Some (JStr ''FL350'')"
  using last_applied_patch_wins
          [of board1 "''x1''" jbu123 "[''altitude'' \<mapsto> JStr ''FL300'']" "''altitude''"
              "JStr ''FL300''" "[''altitude'' \<mapsto> JStr ''FL350'']" "JStr ''FL350''"
              400 "Some 400" 300 "Some 300"]
  by (simp add: board1_simps)

section \<open>The timestamp\<close>

text \<open>
  C8, as stated, fails for the timestamp \<open>0\<close>: \<^verbatim>\<open>mtime || Date.now()\<close> takes the clock
  when \<^verbatim>\<open>mtime\<close> is \<open>0\<close>. An accepted patch sent with \<^verbatim>\<open>mtime: 0\<close> while the clock
  reads \<open>1700000000000\<close> leaves \<^verbatim>\<open>lastUpdated\<close> at the clock's reading.
\<close>

theorem zero_timestamp_counterexample:
  "accepted 1700000000000
     (Patch ''x1'' (Some [''altitude'' \<mapsto> JStr ''FL350'']) (Some 0)) board1
   \<and> mtime_of (Patch ''x1'' (Some [''altitude'' \<mapsto> JStr ''FL350'']) (Some 0)) = Some 0
   \<and> lastUpdated (fst (authority 1700000000000
        (Patch ''x1'' (Some [''altitude'' \<mapsto> JStr ''FL350'']) (Some 0)) board1))
       = 1700000000000"
  by (simp add: accepted_def item_patch_def items_get_own board1_simps Let_def stamp_def)

text \<open>
  C8, amended. After an accepted add, delete, patch or move that carries an integer
  timestamp other than \<open>0\<close>, the Authority's \<^verbatim>\<open>lastUpdated\<close> is that timestamp, whatever
  the server's clock reads.
\<close>

theorem nonzero_timestamp_verbatim:
  assumes "accepted now r s" and "mtime_of r = Some t" and "t \<noteq> 0"
  shows "lastUpdated (fst (authority now r s)) = t"
proof (cases r)
  case (Add item lane index mtime)
  with assms(1) have "snd (item_add now item lane index mtime s) \<noteq> None"
    by (simp add: accepted_def)
  from accepted_add [OF this] Add assms(2,3) show ?thesis
    by (auto simp: stamp_def)
next
  case (Delete iid mtime)
  with assms show ?thesis
    by (auto simp: accepted_def item_delete_def stamp_def Let_def split: if_splits)
next
  case (Patch iid patch mtime)
  with assms show ?thesis
    by (auto simp: accepted_def item_patch_def stamp_def Let_def
          split: option.splits if_splits)
next
  case (Move iid source target index mtime)
  with assms(1) have "snd (lanes_move now iid source target index mtime s) \<noteq> None"
    by (simp add: accepted_def)
  from accepted_move [OF this] Move assms(2,3) show ?thesis
    by (auto simp: stamp_def)
qed

theorem nonzero_timestamp_verbatim_witness:
  "accepted 1700000000000 (Delete ''x1'' (Some (-5))) board1
   \<and> mtime_of (Delete ''x1'' (Some (-5))) = Some (-5) \<and> (-5::int) \<noteq> 0
   \<and> lastUpdated (fst (authority 1700000000000 (Delete ''x1'' (Some (-5))) board1)) = -5"
proof -
  have acc: "accepted 1700000000000 (Delete ''x1'' (Some (-5))) board1"
    by (simp add: accepted_def item_delete_def items_get_own board1_simps Let_def)
  from acc nonzero_timestamp_verbatim [OF acc, of "-5"] show ?thesis
    by simp
qed

section \<open>A Replica receiving a snapshot\<close>

text \<open>
  C9 says that after \<^verbatim>\<open>board:state\<close> every lane holds only ids that are keys of the
  snapshot's items. The filter \<^verbatim>\<open>!!incoming.items[id]\<close> is meant to see to that, but
  the lookup also finds what \<^verbatim>\<open>items\<close> inherits. The Authority accepts a move of the id
  \<^verbatim>\<open>toString\<close>, which was never added; the snapshot it then sends lists that id in lane
  New York and has no items, and the Replica keeps the id in the lane.
\<close>

theorem snapshot_keeps_inherited_name:
  "lanes haunted_snapshot ''New York'' = Some [''toString'']
   \<and> items haunted_snapshot ''toString'' = None
   \<and> lanes (on_board_state board1 haunted_snapshot) ''New York'' = Some [''toString'']
   \<and> items (on_board_state board1 haunted_snapshot) ''toString'' = None"
  by (simp add: haunted_snapshot_def board_pull_def on_board_state_def items_get_def
        haunted_board_simps toString_inherited)

section \<open>Referential integrity along runs\<close>

text \<open>Growing \<open>items\<close> while the lanes stay as they are keeps the invariant.\<close>

lemma integrity_mono:
  assumes "integrity s" and "lanes s' = lanes s" and "dom (items s) \<subseteq> dom (items s')"
  shows "integrity s'"
proof -
  have "listed s' l x = listed s l x" for l x
    by (simp add: listed_def assms(2))
  moreover have "items s' x \<noteq> None" if "items s x \<noteq> None" for x
    using assms(3) that by (auto simp: dom_def)
  ultimately show ?thesis
    using assms(1) by (simp add: integrity_def)
qed

text \<open>What each accepted request does to the ids the lanes list.\<close>

lemma listed_after_add:
  assumes "snd (item_add now (Some it) lane index mtime s) \<noteq> None"
  shows "listed (fst (item_add now (Some it) lane index mtime s)) l x
          = (if l = lane then x = item_id it \<or> listed s l x else listed s l x)"
proof -
  from accepted_add [OF assms] obtain arr where "lanes s lane = Some arr"
    and "fst (item_add now (Some it) lane index mtime s)
        = (items_set s (item_id it) it)
            \<lparr>lanes := (lanes s)(lane \<mapsto>
                 insert_at index (item_id it) (filter (\<lambda>x. x \<noteq> item_id it) arr)),
             lastUpdated := stamp mtime now\<rparr>"
    by auto
  then show ?thesis
    by (auto simp: listed_def set_insert_at)
qed

lemma items_after_add:
  assumes "snd (item_add now (Some it) lane index mtime s) \<noteq> None"
  shows "dom (items s) \<subseteq> dom (items (fst (item_add now (Some it) lane index mtime s)))"
    and "item_id it \<noteq> ''__proto__'' \<or> items s (item_id it) \<noteq> None
           \<Longrightarrow> items (fst (item_add now (Some it) lane index mtime s)) (item_id it) \<noteq> None"
proof -
  from accepted_add [OF assms] obtain arr where
    st: "fst (item_add now (Some it) lane index mtime s)
        = (items_set s (item_id it) it)
            \<lparr>lanes := (lanes s)(lane \<mapsto>
                 insert_at index (item_id it) (filter (\<lambda>x. x \<noteq> item_id it) arr)),
             lastUpdated := stamp mtime now\<rparr>"
    by auto
  show "dom (items s) \<subseteq> dom (items (fst (item_add now (Some it) lane index mtime s)))"
    using items_set_keeps_keys [of s "item_id it" it] by (simp add: st)
  show "items (fst (item_add now (Some it) lane index mtime s)) (item_id it) \<noteq> None"
    if "item_id it \<noteq> ''__proto__'' \<or> items s (item_id it) \<noteq> None"
    using that by (auto simp: st items_set_def)
qed

lemma rejected_delete:
  "snd (item_delete now iid mtime s) = None \<Longrightarrow> fst (item_delete now iid mtime s) = s"
  by (auto simp: item_delete_def Let_def split: if_splits)

lemma accepted_delete:
  assumes "snd (item_delete now iid mtime s) \<noteq> None"
  shows "items (fst (item_delete now iid mtime s)) = (items s)(iid := None)
    \<and> (\<forall>l x. listed (fst (item_delete now iid mtime s)) l x = (listed s l x \<and> x \<noteq> iid))"
  using assms
  by (auto simp: item_delete_def Let_def listed_def split: option.splits if_splits)

lemma patch_lanes: "lanes (fst (item_patch now iid patch mtime s)) = lanes s"
  by (simp add: item_patch_def Let_def items_set_frame split: option.splits)

lemma patch_keeps_keys:
  "dom (items s) \<subseteq> dom (items (fst (item_patch now iid patch mtime s)))"
proof (cases "snd (item_patch now iid patch mtime s) = None")
  case True
  then have "fst (item_patch now iid patch mtime s) = s"
    by (auto simp: item_patch_def Let_def split: option.splits if_splits)
  then show ?thesis by simp
next
  case False
  then obtain p where "fst (item_patch now iid patch mtime s)
      = (items_set s iid (spread (items_get s iid) ++ p))\<lparr>lastUpdated := stamp mtime now\<rparr>"
    by (auto simp: item_patch_def Let_def split: option.splits if_splits)
  then show ?thesis
    using items_set_keeps_keys [of s iid "spread (items_get s iid) ++ p"] by simp
qed

lemma listed_after_move:
  assumes "snd (lanes_move now iid from to index mtime s) \<noteq> None"
  shows "items (fst (lanes_move now iid from to index mtime s)) = items s"
    and "listed (fst (lanes_move now iid from to index mtime s)) l x
          = (if l = to then x = iid \<or> listed s l x
             else if l = from then listed s l x \<and> x \<noteq> iid else listed s l x)"
proof -
  from accepted_move [OF assms] obtain fromLane toLane
    where src: "lanes s from = Some fromLane" and dst: "lanes s to = Some toLane"
      and st: "fst (lanes_move now iid from to index mtime s)
        = s\<lparr>lanes := (lanes s)(from \<mapsto> filter (\<lambda>x. x \<noteq> iid) fromLane,
                                 to \<mapsto> insert_at index iid toLane),
             lastUpdated := stamp mtime now\<rparr>"
    by blast
  show "items (fst (lanes_move now iid from to index mtime s)) = items s"
    by (simp add: st)
  show "listed (fst (lanes_move now iid from to index mtime s)) l x
          = (if l = to then x = iid \<or> listed s l x
             else if l = from then listed s l x \<and> x \<noteq> iid else listed s l x)"
    using src dst by (auto simp: st listed_def set_insert_at)
qed

text \<open>The invariant holds at start-up and every orderly request keeps it.\<close>

lemma integrity_initial: "integrity (initial_state t0)"
  by (simp add: integrity_def listed_def initial_state_def initial_lanes_def)

lemma integrity_add:
  assumes "integrity s" and "orderly (Add item lane index mtime) s"
  shows "integrity (fst (item_add now item lane index mtime s))"
proof (cases "snd (item_add now item lane index mtime s) = None")
  case True
  from rejected_add [OF True] assms(1) show ?thesis
    by (blast intro: integrity_mono)
next
  case False
  from accepted_add [OF False] obtain it where it: "item = Some it" by blast
  let ?s' = "fst (item_add now (Some it) lane index mtime s)"
  from False it have acc: "snd (item_add now (Some it) lane index mtime s) \<noteq> None"
    by simp
  note ls = listed_after_add [OF acc]
  from assms(2) it
  consider (fresh) "items s (item_id it) = None" "item_id it \<noteq> ''__proto__''"
    | (again) "listed s lane (item_id it)"
    by auto
  then have own_or_plain: "item_id it \<noteq> ''__proto__'' \<or> items s (item_id it) \<noteq> None"
    and single: "\<forall>l. listed s l (item_id it) \<longrightarrow> l = lane"
    using assms(1) unfolding integrity_def by (metis option.distinct(1))+
  from own_or_plain have stored: "items ?s' (item_id it) \<noteq> None"
    by (rule items_after_add(2) [OF acc])
  have kept: "items ?s' x \<noteq> None" if "items s x \<noteq> None" for x
    using items_after_add(1) [OF acc] that by (auto simp: dom_def)
  have "integrity ?s'"
    unfolding integrity_def ls
    using assms(1) stored single kept by (auto simp: integrity_def split: if_splits)
  with it show ?thesis by simp
qed

lemma integrity_delete:
  assumes "integrity s"
  shows "integrity (fst (item_delete now iid mtime s))"
proof (cases "snd (item_delete now iid mtime s) = None")
  case True
  with assms show ?thesis by (simp add: rejected_delete)
next
  case False
  from accepted_delete [OF False] show ?thesis
    using assms by (auto simp: integrity_def)
qed

lemma integrity_patch:
  assumes "integrity s"
  shows "integrity (fst (item_patch now iid patch mtime s))"
  using assms patch_lanes patch_keeps_keys by (rule integrity_mono)

lemma integrity_move:
  assumes "integrity s" and "orderly (Move iid from to index mtime) s"
  shows "integrity (fst (lanes_move now iid from to index mtime s))"
proof (cases "snd (lanes_move now iid from to index mtime s) = None")
  case True
  with assms(1) show ?thesis by (simp add: rejected_move)
next
  case False
  from assms(2) have here: "listed s from iid"
    by simp
  with assms(1) have known: "items s iid \<noteq> None"
    and only: "\<And>l. listed s l iid \<Longrightarrow> l = from"
    by (auto simp: integrity_def)
  note its = listed_after_move(1) [OF False]
  note ls = listed_after_move(2) [OF False]
  show ?thesis
    unfolding integrity_def its ls
    using assms(1) known only by (auto simp: integrity_def split: if_splits)
qed

lemma integrity_step:
  assumes "integrity s" and "orderly r s"
  shows "integrity (fst (authority now r s))"
  using assms
  by (cases r)
     (simp_all add: integrity_add integrity_delete integrity_patch integrity_move
        del: orderly.simps)

lemma integrity_run: "integrity s \<Longrightarrow> orderly_run evs s \<Longrightarrow> integrity (run evs s)"
proof (induction evs arbitrary: s)
  case Nil
  then show ?case by simp
next
  case (Cons e evs)
  obtain now r where e: "e = (now, r)" by (cases e)
  with Cons.prems have "integrity (fst (authority now r s))"
    and "orderly_run evs (fst (authority now r s))"
    by (simp_all add: integrity_step)
  with Cons.IH e show ?case by simp
qed

text \<open>The three scenario runs, evaluated.\<close>

lemma ghost_move_run:
  "accepted_run ghost_move (initial_state 1)"
  "lanes (run ghost_move (initial_state 1)) ''New York'' = Some [''ghost'']"
  "items (run ghost_move (initial_state 1)) ''ghost'' = None"
  by (simp_all add: ghost_move_def accepted_def lanes_move_def lanes_move_handler_def
        left_behind_def lanes_get_def initial_state_simps initial_lanes_simps insert_at_def
        Let_def)

lemma double_add_run:
  "accepted_run double_add (initial_state 1)"
  "lanes (run double_add (initial_state 1)) ''Unassigned'' = Some [''x1'']"
  "lanes (run double_add (initial_state 1)) ''New York'' = Some [''x1'']"
  by (simp_all add: double_add_def accepted_def item_add_def item_add_handler_def
        left_behind_def lanes_get_def items_set_plain initial_state_simps
        initial_lanes_simps item_id_jbu123 insert_at_def Let_def)

lemma session1_run:
  "orderly_run session1 (initial_state 1)"
  "lanes (run session1 (initial_state 1)) ''Unassigned'' = Some []"
  "lanes (run session1 (initial_state 1)) ''New York'' = Some [''x1'']"
  by (simp_all add: session1_def accepted_def item_add_def item_add_handler_def
        lanes_move_def lanes_move_handler_def item_patch_def left_behind_def lanes_get_def
        items_get_def items_set_plain listed_def initial_state_simps initial_lanes_simps
        item_id_jbu123 insert_at_def splice_in_def Let_def)

text \<open>
  C1, as stated, fails: the handlers accept requests that break both parts. Moving an
  id that was never added puts it into a lane while \<^verbatim>\<open>items\<close> has no such key, and
  adding the same item to a second lane leaves its id in two lanes.
\<close>

theorem integrity_counterexample:
  "accepted_run ghost_move (initial_state 1)
   \<and> lanes (run ghost_move (initial_state 1)) ''New York'' = Some [''ghost'']
   \<and> items (run ghost_move (initial_state 1)) ''ghost'' = None
   \<and> accepted_run double_add (initial_state 1)
   \<and> lanes (run double_add (initial_state 1)) ''Unassigned'' = Some [''x1'']
   \<and> lanes (run double_add (initial_state 1)) ''New York'' = Some [''x1'']"
  by (simp add: ghost_move_run double_add_run)

text \<open>
  C1, amended. In every state reached from the initial state by accepted requests in
  which each move names an id that its source lane lists, and each add carries an id
  that its own lane already lists or else an id other than \<^verbatim>\<open>__proto__\<close> that is not yet
  a key of \<^verbatim>\<open>items\<close>, every id in a lane's list is a key of \<^verbatim>\<open>items\<close> and no other lane
  lists it.
\<close>

theorem orderly_runs_keep_integrity:
  assumes "orderly_run evs (initial_state t0)"
    and "lanes (run evs (initial_state t0)) l = Some arr" and "x \<in> set arr"
  shows "items (run evs (initial_state t0)) x \<noteq> None
       \<and> (\<forall>l' arr'. lanes (run evs (initial_state t0)) l' = Some arr' \<and> x \<in> set arr'
            \<longrightarrow> l' = l)"
proof -
  have inv: "integrity (run evs (initial_state t0))"
    using integrity_initial assms(1) by (rule integrity_run)
  from assms(2,3) have here: "listed (run evs (initial_state t0)) l x"
    by (simp add: listed_def)
  have "l' = l" if "lanes (run evs (initial_state t0)) l' = Some arr'" "x \<in> set arr'"
    for l' arr'
  proof -
    from that have "listed (run evs (initial_state t0)) l' x" by (simp add: listed_def)
    with inv here show ?thesis unfolding integrity_def by blast
  qed
  moreover from inv here have "items (run evs (initial_state t0)) x \<noteq> None"
    unfolding integrity_def by blast
  ultimately show ?thesis by blast
qed

theorem orderly_runs_keep_integrity_witness:
  "orderly_run session1 (initial_state 1)
   \<and> lanes (run session1 (initial_state 1)) ''New York'' = Some [''x1'']
   \<and> ''x1'' \<in> set [''x1'']
   \<and> items (run session1 (initial_state 1)) ''x1'' \<noteq> None
   \<and> lanes (run session1 (initial_state 1)) ''Unassigned'' = Some []"
proof -
  have member: "''x1'' \<in> set [''x1'']" by simp
  from orderly_runs_keep_integrity [OF session1_run(1) session1_run(3) member]
  have "items (run session1 (initial_state 1)) ''x1'' \<noteq> None" by (rule conjunct1)
  with session1_run member show ?thesis by (intro conjI)
qed

end
